theory Spec2Isabelle
  imports Main "HOL-Library.Code_Target_Numeral"
begin

section \<open>Numbers and their decimal strings\<close>

text \<open>
  The bank stores and compares values of the TypeScript type \<open>number\<close>, which are IEEE
  754 doubles. The model covers the integers among them and writes them as \<open>int\<close>:
  \<open><\<close>, \<open><=\<close> and \<open>===\<close> are the order and the equality of the integers. A sum or a
  difference of two of them is the double nearest to the exact result, the even one of
  two that are equally near (\<open>number_add\<close>, \<open>number_subtract\<close>): every integer up to
  \<open>2^53\<close> in magnitude is a double, beyond that only the multiples of a power of two
  with a significand of 53 bits are. Fractions, NaN and the infinities are outside the
  model, and so is a sum whose magnitude reaches \<open>2^1024 - 2^970\<close>, which the code
  stores as an infinity (\<open>overflow\<close>).
\<close>

fun bit_length :: "nat \<Rightarrow> nat" where
  "bit_length n = (if n = 0 then 0 else Suc (bit_length (n div 2)))"

declare bit_length.simps [simp del]

definition nearest_double :: "nat \<Rightarrow> nat" where
  "nearest_double m =
     (let e = bit_length m - 53; q = m div 2 ^ e; r = m mod 2 ^ e; half = 2 ^ e div 2 in
      if e = 0 then m
      else if half < r \<or> (r = half \<and> odd q) then (q + 1) * 2 ^ e
      else q * 2 ^ e)"

definition number_value :: "int \<Rightarrow> int" where
  "number_value x =
     (if x < 0 then - int (nearest_double (nat (- x))) else int (nearest_double (nat x)))"

definition number_add :: "int \<Rightarrow> int \<Rightarrow> int" where
  "number_add x y = number_value (x + y)"

definition number_subtract :: "int \<Rightarrow> int \<Rightarrow> int" where
  "number_subtract x y = number_value (x - y)"


text \<open>
  \<open>toString()\<close> is \<open>Number.prototype.toString\<close> of ECMAScript in radix 10. It takes the
  shortest decimal digits \<open>s\<close> (\<open>k\<close> of them) and the length \<open>n\<close> of the integer part for
  which \<open>s * 10^(n - k)\<close> has the number as its nearest double, the nearest such \<open>s\<close> when
  there are several (\<open>shortest\<close>). It prints the digits followed by \<open>n - k\<close> zeros when
  \<open>n\<close> is at most 21, and the exponent notation, as in \<open>1.6384e+25\<close>, otherwise. A
  negative number gets a leading minus sign.
\<close>

definition digit_char :: "nat \<Rightarrow> char" where
  "digit_char d = char_of (48 + d)"

fun digits :: "nat \<Rightarrow> string" where
  "digits n = (if n < 10 then [digit_char n] else digits (n div 10) @ [digit_char (n mod 10)])"

declare digits.simps [simp del]

definition candidate :: "nat \<Rightarrow> nat \<Rightarrow> nat \<Rightarrow> nat option" where
  "candidate v d k =
     (let u = 10 ^ (d - k); lo = v div u; hi = lo + 1;
          ok_lo = (nearest_double (lo * u) = v);
          ok_hi = (hi < 10 ^ k \<and> nearest_double (hi * u) = v) in
      if ok_lo \<and> ok_hi then
        (if v - lo * u < hi * u - v then Some lo
         else if hi * u - v < v - lo * u then Some hi
         else if even lo then Some lo else Some hi)
      else if ok_lo then Some lo
      else if ok_hi then Some hi
      else None)"

fun search :: "nat \<Rightarrow> nat \<Rightarrow> nat \<Rightarrow> nat \<Rightarrow> (nat \<times> nat) option" where
  "search v d k 0 = None"
| "search v d k (Suc fuel) =
     (case candidate v d k of
        Some s \<Rightarrow> Some (s, k)
      | None \<Rightarrow> search v d (Suc k) fuel)"

definition shortest :: "nat \<Rightarrow> nat \<times> nat \<times> nat" where
  "shortest v =
     (let d = length (digits v) in
      if nearest_double (10 ^ d) = v then (1, 1, d + 1)
      else
        (case search v d 1 (min d 17) of
           None \<Rightarrow> (v, d, d)
         | Some (s, k) \<Rightarrow> (s, k, d)))"

definition toString_nat :: "nat \<Rightarrow> string" where
  "toString_nat v =
     (case shortest v of (s, k, n) \<Rightarrow>
        if n \<le> 21 then digits s @ replicate (n - k) (CHR ''0'')
        else
          (case digits s of
             [] \<Rightarrow> []
           | c # cs \<Rightarrow> (if k = 1 then [c] else c # CHR ''.'' # cs))
          @ ''e+'' @ digits (n - 1))"

definition toString :: "int \<Rightarrow> string" where
  "toString n = (if n < 0 then CHR ''-'' # toString_nat (nat (- n)) else toString_nat (nat n))"

text \<open>
  The data model's words "a 10-digit number (exactly 10 decimal digits)", stated on the
  value and independently of any string conversion.
\<close>

definition ten_decimal_digits :: "int \<Rightarrow> bool" where
  "ten_decimal_digits n = (1000000000 \<le> n \<and> n \<le> 9999999999)"

section \<open>Accounts, the object store and the bank\<close>

text \<open>
  \<open>AccountType\<close> is the object type \<open>{ id: number; balance: number }\<close> of \<open>types.ts\<close>.
  An array of accounts holds references to such objects, and \<open>deposit\<close> and \<open>withdraw\<close>
  assign to a field of the object that \<open>find\<close> returned. The model therefore keeps the
  objects in a store (\<open>heap\<close>, addressed by position) and the array \<open>this.accounts\<close> as
  a list of references into it: the same object may occur at several positions of the
  array, and two different objects may hold the same \<open>id\<close>.
\<close>

record AccountType =
  id' :: int
  balance :: int

type_synonym ref = nat

record Bank =
  heap :: "AccountType list"
  accounts :: "ref list"
  usernames :: "string list"

text \<open>Every \<open>throw new Error(message)\<close> of the source is the value \<open>Error message\<close>.\<close>

datatype error = Error string

text \<open>
  The constructor stores the array and the user names it is given as they are.
  \<open>new_Bank\<close> is the call \<open>new Bank([o1, ..., on], names)\<close> on an array literal of object
  literals, as in the test script: \<open>n\<close> distinct objects, referenced in order.
\<close>

definition constructor :: "AccountType list \<Rightarrow> ref list \<Rightarrow> string list \<Rightarrow> Bank" where
  "constructor h accs names = \<lparr>heap = h, accounts = accs, usernames = names\<rparr>"

definition new_Bank :: "AccountType list \<Rightarrow> string list \<Rightarrow> Bank" where
  "new_Bank objs names = constructor objs [0..<length objs] names"

text \<open>References never dangle: every entry of the array is an object of the store.\<close>

definition refs_valid :: "Bank \<Rightarrow> bool" where
  "refs_valid b = list_all (\<lambda>r. r < length (heap b)) (accounts b)"

subsection \<open>The private helpers\<close>

definition findAccountById :: "Bank \<Rightarrow> int \<Rightarrow> ref option" where
  "findAccountById b i = find (\<lambda>account. id' (heap b ! account) = i) (accounts b)"

definition isAccountNumberInvalid :: "int \<Rightarrow> bool" where
  "isAccountNumberInvalid accountNumber = (length (toString accountNumber) \<noteq> 10)"

definition isUsernameExisits :: "Bank \<Rightarrow> string \<Rightarrow> bool" where
  "isUsernameExisits b username = (username \<in> set (usernames b))"

subsection \<open>The four operations\<close>

text \<open>
  Each operation returns what the call returns or throws, paired with the state after
  the call. An account is returned as the reference to its object.
\<close>

definition createAccount :: "Bank \<Rightarrow> string \<Rightarrow> int \<Rightarrow> int \<Rightarrow> (error + ref) \<times> Bank" where
  "createAccount b username age accountNumber =
     (if isAccountNumberInvalid accountNumber then (Inl (Error ''Invalid account number''), b)
      else if \<not> isUsernameExisits b username then (Inl (Error ''User not found''), b)
      else if age < 18 then (Inl (Error ''User is under 18''), b)
      else if findAccountById b accountNumber \<noteq> None
        then (Inl (Error ''Account already exists''), b)
      else
        (let account = length (heap b) in
         (Inr account,
          b\<lparr>heap := heap b @ [\<lparr>id' = accountNumber, balance = 0\<rparr>],
            accounts := accounts b @ [account]\<rparr>)))"

definition deposit :: "Bank \<Rightarrow> int \<Rightarrow> int \<Rightarrow> (error + ref) \<times> Bank" where
  "deposit b accountId amount =
     (case findAccountById b accountId of
        None \<Rightarrow> (Inl (Error ''Account not found''), b)
      | Some account \<Rightarrow>
          if amount \<le> 0 then (Inl (Error ''Invalid deposit amount''), b)
          else
            (Inr account,
             b\<lparr>heap := (heap b)[account :=
                  (heap b ! account)\<lparr>balance :=
                     number_add (balance (heap b ! account)) amount\<rparr>]\<rparr>))"

definition withdraw :: "Bank \<Rightarrow> int \<Rightarrow> int \<Rightarrow> (error + ref) \<times> Bank" where
  "withdraw b accountId amount =
     (case findAccountById b accountId of
        None \<Rightarrow> (Inl (Error ''Account not found''), b)
      | Some account \<Rightarrow>
          if amount \<le> 0 then (Inl (Error ''Invalid withdrawal amount''), b)
          else if balance (heap b ! account) < amount
            then (Inl (Error ''Insufficient funds''), b)
          else
            (Inr account,
             b\<lparr>heap := (heap b)[account :=
                  (heap b ! account)\<lparr>balance :=
                     number_subtract (balance (heap b ! account)) amount\<rparr>]\<rparr>))"

definition getBalance :: "Bank \<Rightarrow> int \<Rightarrow> (error + int) \<times> Bank" where
  "getBalance b accountId =
     (case findAccountById b accountId of
        None \<Rightarrow> (Inl (Error ''Account not found''), b)
      | Some account \<Rightarrow> (Inr (balance (heap b ! account)), b))"

subsection \<open>The test script's bank\<close>

definition seed :: Bank where
  "seed = new_Bank
     [\<lparr>id' = 1234567890, balance = 5000\<rparr>, \<lparr>id' = 1234567891, balance = 10000\<rparr>]
     [''user1'', ''user2'']"

text \<open>
  Three more snapshots: one that violates the three invariants of the data model, one
  whose account holds the balance \<open>2^54\<close>, where the doubles are four apart, and one
  with two different account objects under one id, after an account of another id.
\<close>

definition invalid_snapshot :: Bank where
  "invalid_snapshot = new_Bank [\<lparr>id' = 42, balance = - 100\<rparr>, \<lparr>id' = 42, balance = 7\<rparr>] [''user1'']"


definition twins :: Bank where
  "twins = new_Bank
     [\<lparr>id' = 1234567891, balance = 10\<rparr>, \<lparr>id' = 1234567890, balance = 50\<rparr>,
      \<lparr>id' = 1234567890, balance = 700\<rparr>] []"

section \<open>The data model's invariants and sequences of calls\<close>

text \<open>
  The three invariants of the data model, over the accounts of the array: no negative
  balance, every id a 10-digit number, no id twice. \<open>ids_accepted\<close> is what the source's
  own check of an account number establishes for every id.
\<close>

definition balances_nonneg :: "Bank \<Rightarrow> bool" where
  "balances_nonneg b = list_all (\<lambda>r. 0 \<le> balance (heap b ! r)) (accounts b)"

definition ids_ten_digits :: "Bank \<Rightarrow> bool" where
  "ids_ten_digits b = list_all (\<lambda>r. ten_decimal_digits (id' (heap b ! r))) (accounts b)"

definition ids_distinct :: "Bank \<Rightarrow> bool" where
  "ids_distinct b = distinct (map (\<lambda>r. id' (heap b ! r)) (accounts b))"

definition ids_accepted :: "Bank \<Rightarrow> bool" where
  "ids_accepted b = list_all (\<lambda>r. \<not> isAccountNumberInvalid (id' (heap b ! r))) (accounts b)"

text \<open>
  A caller makes one call after the other on the same bank and catches what a call
  throws, as the test script does.
\<close>

datatype operation =
  CreateAccount string int int
  | Deposit int int
  | Withdraw int int
  | GetBalance int

fun call :: "Bank \<Rightarrow> operation \<Rightarrow> Bank" where
  "call b (CreateAccount username age accountNumber) =
     snd (createAccount b username age accountNumber)"
| "call b (Deposit accountId amount) = snd (deposit b accountId amount)"
| "call b (Withdraw accountId amount) = snd (withdraw b accountId amount)"
| "call b (GetBalance accountId) = snd (getBalance b accountId)"

definition run :: "Bank \<Rightarrow> operation list \<Rightarrow> Bank" where
  "run b ops = foldl call b ops"

text \<open>The calls whose account number, if any, is neither negative nor as large as \<open>10^21\<close>.\<close>

fun plain_number :: "operation \<Rightarrow> bool" where
  "plain_number (CreateAccount username age accountNumber) =
     (0 \<le> accountNumber \<and> accountNumber < 10 ^ 21)"
| "plain_number (Deposit accountId amount) = True"
| "plain_number (Withdraw accountId amount) = True"
| "plain_number (GetBalance accountId) = True"

section \<open>The nearest double\<close>

lemma bit_length_le: "(bit_length m \<le> k) = (m < 2 ^ k)"
proof (induction m arbitrary: k rule: bit_length.induct)
  case (1 n)
  show ?case
  proof (cases "n = 0")
    case True
    then show ?thesis by (subst bit_length.simps) simp
  next
    case False
    have b: "bit_length n = Suc (bit_length (n div 2))"
      using False by (subst bit_length.simps) simp
    show ?thesis
    proof (cases k)
      case 0
      with False b show ?thesis by simp
    next
      case (Suc j)
      have "(n div 2 < 2 ^ j) = (n < 2 ^ Suc j)" by (simp add: div_less_iff_less_mult mult.commute)
      with 1[OF False, of j] b Suc show ?thesis by simp
    qed
  qed
qed

lemma bit_length_eqI: "2 ^ k \<le> m \<Longrightarrow> m < 2 ^ Suc k \<Longrightarrow> bit_length m = Suc k"
  using bit_length_le[of m "Suc k"] bit_length_le[of m k] by simp

lemma nearest_double_small: "m \<le> 9007199254740992 \<Longrightarrow> nearest_double m = m"
proof (cases "m < 2 ^ 53")
  case True
  then have "bit_length m \<le> 53" by (simp only: bit_length_le)
  then show ?thesis by (simp add: nearest_double_def)
next
  case False
  moreover assume "m \<le> 9007199254740992"
  ultimately have m: "m = 2 ^ 53" by simp
  have "bit_length m = Suc 53" by (rule bit_length_eqI) (simp_all add: m)
  then show ?thesis by (simp add: nearest_double_def m)
qed

lemma number_value_small: "\<bar>x\<bar> \<le> 9007199254740992 \<Longrightarrow> number_value x = x"
  by (simp add: number_value_def nearest_double_small)

lemma number_value_nonneg: "0 \<le> x \<Longrightarrow> 0 \<le> number_value x"
  by (simp add: number_value_def)

lemma nearest_double_large:
  assumes "2 ^ (52 + e) \<le> m" and "m < 2 ^ (53 + e)" and "0 < e"
  shows "nearest_double m =
     (if 2 ^ e div 2 < m mod 2 ^ e \<or> (m mod 2 ^ e = 2 ^ e div 2 \<and> odd (m div 2 ^ e))
      then (m div 2 ^ e + 1) * 2 ^ e else m div 2 ^ e * 2 ^ e)"
proof -
  have "bit_length m = Suc (52 + e)" using assms(1,2) by (intro bit_length_eqI) simp_all
  then have "bit_length m - 53 = e" by simp
  then show ?thesis using assms(3) by (simp add: nearest_double_def Let_def)
qed



lemma nearest_double_power10: "d \<le> 21 \<Longrightarrow> nearest_double (10 ^ d) = 10 ^ d"
proof -
  assume "d \<le> 21"
  then consider "d \<le> 15" | "d = 16" | "d = 17" | "d = 18" | "d = 19" | "d = 20" | "d = 21"
    by linarith
  then show ?thesis
  proof cases
    case 1
    then have "(10::nat) ^ d \<le> 10 ^ 15" by (intro power_increasing) simp_all
    then show ?thesis by (intro nearest_double_small) simp
  next
    case 2
    have "bit_length (10 ^ 16) = Suc 53" by (rule bit_length_eqI) simp_all
    then show ?thesis by (simp add: nearest_double_def 2)
  next
    case 3
    have "bit_length (10 ^ 17) = Suc 56" by (rule bit_length_eqI) simp_all
    then show ?thesis by (simp add: nearest_double_def 3)
  next
    case 4
    have "bit_length (10 ^ 18) = Suc 59" by (rule bit_length_eqI) simp_all
    then show ?thesis by (simp add: nearest_double_def 4)
  next
    case 5
    have "bit_length (10 ^ 19) = Suc 63" by (rule bit_length_eqI) simp_all
    then show ?thesis by (simp add: nearest_double_def 5)
  next
    case 6
    have "bit_length (10 ^ 20) = Suc 66" by (rule bit_length_eqI) simp_all
    then show ?thesis by (simp add: nearest_double_def 6)
  next
    case 7
    have "bit_length (10 ^ 21) = Suc 69" by (rule bit_length_eqI) simp_all
    then show ?thesis by (simp add: nearest_double_def 7)
  qed
qed

lemma nearest_double_big:
  "nearest_double 100000000000000000000000000 = 100000000000000004764729344"
  "nearest_double 10000000000000000000000000 = 10000000000000000905969664"
  "nearest_double 20000000000000000000000000 = 20000000000000001811939328"
  "nearest_double 16000000000000000000000000 = 15999999999999999731564544"
  "nearest_double 17000000000000000000000000 = 16999999999999999177916416"
  "nearest_double 16300000000000000000000000 = 16300000000000000209715200"
  "nearest_double 16400000000000000000000000 = 16400000000000000369098752"
  "nearest_double 16380000000000000000000000 = 16379999999999999907725312"
  "nearest_double 16390000000000000000000000 = 16389999999999999064670208"
  "nearest_double 16384000000000000000000000 = 16384000000000000000000000"
  "nearest_double 16385000000000000000000000 = 16385000000000000559939584"
proof -
  show "nearest_double 100000000000000000000000000 = 100000000000000004764729344"
    using nearest_double_large[of 34 100000000000000000000000000] by simp
  show "nearest_double 10000000000000000000000000 = 10000000000000000905969664"
    using nearest_double_large[of 31 10000000000000000000000000] by simp
  show "nearest_double 20000000000000000000000000 = 20000000000000001811939328"
    using nearest_double_large[of 32 20000000000000000000000000] by simp
  show "nearest_double 16000000000000000000000000 = 15999999999999999731564544"
    using nearest_double_large[of 31 16000000000000000000000000] by simp
  show "nearest_double 17000000000000000000000000 = 16999999999999999177916416"
    using nearest_double_large[of 31 17000000000000000000000000] by simp
  show "nearest_double 16300000000000000000000000 = 16300000000000000209715200"
    using nearest_double_large[of 31 16300000000000000000000000] by simp
  show "nearest_double 16400000000000000000000000 = 16400000000000000369098752"
    using nearest_double_large[of 31 16400000000000000000000000] by simp
  show "nearest_double 16380000000000000000000000 = 16379999999999999907725312"
    using nearest_double_large[of 31 16380000000000000000000000] by simp
  show "nearest_double 16390000000000000000000000 = 16389999999999999064670208"
    using nearest_double_large[of 31 16390000000000000000000000] by simp
  show "nearest_double 16384000000000000000000000 = 16384000000000000000000000"
    using nearest_double_large[of 31 16384000000000000000000000] by simp
  show "nearest_double 16385000000000000000000000 = 16385000000000000559939584"
    using nearest_double_large[of 31 16385000000000000000000000] by simp
qed

section \<open>The decimal string of a number and the account-number check\<close>

lemma digits_ne: "digits n \<noteq> []"
  by (subst digits.simps) simp

lemma digits_length_le: "0 < k \<Longrightarrow> (length (digits n) \<le> k) = (n < 10 ^ k)"
proof (induction n arbitrary: k rule: digits.induct)
  case (1 n)
  show ?case
  proof (cases "n < 10")
    case True
    have "(10::nat) ^ 1 \<le> 10 ^ k" using 1(2) by (intro power_increasing) auto
    then have "n < 10 ^ k" using True by simp
    moreover have "digits n = [digit_char n]" using True by (subst digits.simps) simp
    ultimately show ?thesis using 1(2) by simp
  next
    case False
    have d: "digits n = digits (n div 10) @ [digit_char (n mod 10)]"
      using False by (subst digits.simps) simp
    obtain j where j: "k = Suc j" using 1(2) by (cases k) auto
    show ?thesis
    proof (cases "j = 0")
      case True
      have "length (digits (n div 10)) \<noteq> 0" using digits_ne[of "n div 10"] by simp
      with False True j d show ?thesis by simp
    next
      case j0: False
      have e: "(n div 10 < 10 ^ j) = (n < 10 ^ k)"
        unfolding j by (simp add: div_less_iff_less_mult mult.commute)
      have "(length (digits (n div 10)) \<le> j) = (n div 10 < 10 ^ j)"
        using 1(1)[OF False, of j] j0 by simp
      with e d j show ?thesis by simp
    qed
  qed
qed

lemma digits_length_eq:
  "(length (digits n) = Suc j) = (n < 10 ^ Suc j \<and> (j = 0 \<or> 10 ^ j \<le> n))"
proof (cases "j = 0")
  case True
  have "length (digits n) \<noteq> 0" using digits_ne[of n] by simp
  then have "(length (digits n) = Suc 0) = (length (digits n) \<le> Suc 0)" by linarith
  then show ?thesis using True digits_length_le[of "Suc 0" n] by simp
next
  case False
  then have "(length (digits n) \<le> j) = (n < 10 ^ j)" by (intro digits_length_le) simp
  moreover have "(length (digits n) \<le> Suc j) = (n < 10 ^ Suc j)" by (intro digits_length_le) simp
  ultimately show ?thesis using False by auto
qed

lemma digits_length_10: "(length (digits n) = 10) = (1000000000 \<le> n \<and> n \<le> 9999999999)"
  using digits_length_eq[of n 9] by simp linarith

lemma digits_length_9: "(length (digits n) = 9) = (100000000 \<le> n \<and> n \<le> 999999999)"
  using digits_length_eq[of n 8] by simp linarith

lemma candidate_digits:
  assumes "candidate v d k = Some s" and "length (digits v) = d" and "0 < k" and "k \<le> d"
  shows "length (digits s) = k"
proof -
  obtain j where j: "k = Suc j" using assms(3) by (cases k) auto
  obtain c where c: "d = Suc c" using assms(3,4) by (cases d) auto
  define u :: nat where "u = 10 ^ (d - k)"
  define lo where "lo = v div u"
  have u: "0 < u" by (simp add: u_def)
  have pw: "u * 10 ^ k = 10 ^ d" "u * 10 ^ j = 10 ^ c"
    using assms(4) j c by (simp_all add: u_def flip: power_add)
  have v: "v < 10 ^ d" "c = 0 \<or> 10 ^ c \<le> v"
    using assms(2) c digits_length_eq[of v c] by simp_all
  have lo_lt: "lo < 10 ^ k"
    using v(1) u pw(1) by (simp add: lo_def div_less_iff_less_mult mult.commute)
  have lo_ge: "j = 0 \<or> 10 ^ j \<le> lo"
  proof (cases "j = 0")
    case False
    then have "c \<noteq> 0" using j c assms(4) by simp
    with v(2) have "10 ^ j * u \<le> v" using pw(2) by (simp add: mult.commute)
    then show ?thesis using u by (simp add: lo_def less_eq_div_iff_mult_less_eq)
  qed simp
  have "s = lo \<or> (s = lo + 1 \<and> lo + 1 < 10 ^ k)"
    using assms(1) unfolding candidate_def Let_def lo_def u_def
    by (auto split: if_splits)
  then have "s < 10 ^ k \<and> (j = 0 \<or> 10 ^ j \<le> s)"
    using lo_lt lo_ge by auto
  then show ?thesis using j digits_length_eq[of s j] by simp
qed

lemma search_numeral:
  "search v d k (numeral n) =
     (case candidate v d k of
        Some s \<Rightarrow> Some (s, k)
      | None \<Rightarrow> search v d (Suc k) (pred_numeral n))"
  by (simp add: numeral_eq_Suc)

lemma search_SomeD:
  "search v d k fuel = Some (s, k') \<Longrightarrow> candidate v d k' = Some s \<and> k \<le> k' \<and> k' < k + fuel"
proof (induction fuel arbitrary: k)
  case 0
  then show ?case by simp
next
  case (Suc fuel)
  show ?case
  proof (cases "candidate v d k")
    case None
    with Suc.prems have "search v d (Suc k) fuel = Some (s, k')" by simp
    from Suc.IH[OF this] show ?thesis by simp
  next
    case (Some s0)
    with Suc.prems show ?thesis by simp
  qed
qed

lemma shortest_positional:
  assumes "v < 10 ^ 21" and "shortest v = (s, k, n)"
  shows "n = length (digits v) \<and> n \<le> 21 \<and> length (digits s) = k \<and> k \<le> n"
proof -
  define d where "d = length (digits v)"
  have dv: "length (digits v) = d" by (simp add: d_def)
  have d21: "d \<le> 21" using assms(1) digits_length_le[of 21 v] by (simp add: d_def)
  have "d \<noteq> 0" using digits_ne[of v] by (simp add: d_def)
  then obtain c where c: "d = Suc c" by (cases d) auto
  have "v < 10 ^ d" using digits_length_eq[of v c] c by (simp add: d_def)
  then have ne: "nearest_double (10 ^ d) \<noteq> v"
    using nearest_double_power10[OF d21] by simp
  show ?thesis
  proof (cases "search v d 1 (min d 17)")
    case None
    then have "shortest v = (v, d, d)"
      using ne by (simp add: shortest_def dv)
    with assms(2) have "s = v" "k = d" "n = d" by simp_all
    with d21 show ?thesis by (simp add: d_def)
  next
    case (Some x)
    obtain s' k' where x: "x = (s', k')" by (cases x)
    have sh: "shortest v = (s', k', d)"
      using ne Some x by (simp add: shortest_def dv)
    from search_SomeD[OF Some[unfolded x]]
    have e: "candidate v d k' = Some s'" and "1 \<le> k'" and "k' < 1 + min d 17"
      by blast+
    then have k': "0 < k'" "k' \<le> d" by linarith+
    have "length (digits s') = k'"
      by (rule candidate_digits[OF e dv k'])
    moreover from sh assms(2) have "s = s'" "k = k'" "n = d" by simp_all
    ultimately show ?thesis using d21 k'(2) dv by simp
  qed
qed

text \<open>Below \<open>10^21\<close> the string has as many characters as the number has digits.\<close>

lemma toString_nat_length:
  assumes "v < 10 ^ 21"
  shows "length (toString_nat v) = length (digits v)"
proof -
  obtain s k n where sh: "shortest v = (s, k, n)" by (cases "shortest v") auto
  from shortest_positional[OF assms sh] show ?thesis
    by (simp add: toString_nat_def sh)
qed


lemma digits_examples:
  "digits 123456789 = ''123456789''" "digits 0 = ''0''" "digits 16384 = ''16384''"
  "digits 25 = ''25''"
  "digits 1234567890 = ''1234567890''"
  "digits 16384000000000000000000000 = ''16384000000000000000000000''"
  by (simp_all add: digits.simps digit_char_def char_of_def bit_Suc_0_iff)

lemma shortest_examples:
  "shortest 123456789 = (123456789, 9, 9)" "shortest 1234567890 = (123456789, 9, 10)"
  "shortest 0 = (0, 1, 1)"
  by (simp_all add: shortest_def candidate_def Let_def digits_examples nearest_double_small
      search_numeral)

lemma shortest_exponent_example: "shortest 16384000000000000000000000 = (16384, 5, 26)"
  by (simp add: shortest_def candidate_def Let_def digits_examples nearest_double_big
      search_numeral)

lemma toString_examples:
  "toString 1234567890 = ''1234567890''" "toString (- 123456789) = ''-123456789''"
  "toString 0 = ''0''"
  by (simp_all add: toString_def toString_nat_def shortest_examples digits_examples)

lemma toString_exponent_example: "toString 16384000000000000000000000 = ''1.6384e+25''"
  by (simp add: toString_def toString_nat_def shortest_exponent_example digits_examples)

text \<open>
  What \<open>isAccountNumberInvalid\<close> accepts below \<open>10^21\<close>: the 10-digit numbers, and the
  negative numbers of nine digits, whose string is ten characters long with its sign.
  From \<open>10^21\<close> on it accepts the numbers whose exponent notation is ten characters long.
\<close>

lemma isAccountNumberInvalid_iff:
  assumes "\<bar>n\<bar> < 10 ^ 21"
  shows "isAccountNumberInvalid n =
     (\<not> (ten_decimal_digits n \<or> (- 999999999 \<le> n \<and> n \<le> - 100000000)))"
proof (cases "n < 0")
  case True
  then have "nat (- n) < 10 ^ 21" using assms by simp
  then have "length (toString_nat (nat (- n))) = length (digits (nat (- n)))"
    by (rule toString_nat_length)
  then have "(length (toString n) = 10) = (length (digits (nat (- n))) = 9)"
    using True by (simp add: toString_def)
  also have "\<dots> = (100000000 \<le> nat (- n) \<and> nat (- n) \<le> 999999999)"
    by (rule digits_length_9)
  also have "\<dots> = (- 999999999 \<le> n \<and> n \<le> - 100000000)"
    using True by linarith
  finally show ?thesis
    using True by (simp add: isAccountNumberInvalid_def ten_decimal_digits_def)
next
  case False
  then have "nat n < 10 ^ 21" using assms by simp
  then have "length (toString_nat (nat n)) = length (digits (nat n))"
    by (rule toString_nat_length)
  then have "(length (toString n) = 10) = (length (digits (nat n)) = 10)"
    using False by (simp add: toString_def)
  also have "\<dots> = (1000000000 \<le> nat n \<and> nat n \<le> 9999999999)"
    by (rule digits_length_10)
  also have "\<dots> = (1000000000 \<le> n \<and> n \<le> 9999999999)"
    using False by linarith
  finally show ?thesis
    using False by (simp add: isAccountNumberInvalid_def ten_decimal_digits_def)
qed

lemma exponent_notation_accepted: "\<not> isAccountNumberInvalid 16384000000000000000000000"
  by (simp add: isAccountNumberInvalid_def toString_exponent_example)

section \<open>The banks of the examples, evaluated\<close>

lemma seed_eval:
  "seed = \<lparr>heap = [\<lparr>id' = 1234567890, balance = 5000\<rparr>, \<lparr>id' = 1234567891, balance = 10000\<rparr>],
           accounts = [0, 1], usernames = [''user1'', ''user2'']\<rparr>"
  by (simp add: seed_def new_Bank_def constructor_def upt_rec)

lemma invalid_snapshot_eval:
  "invalid_snapshot = \<lparr>heap = [\<lparr>id' = 42, balance = - 100\<rparr>, \<lparr>id' = 42, balance = 7\<rparr>],
           accounts = [0, 1], usernames = [''user1'']\<rparr>"
  by (simp add: invalid_snapshot_def new_Bank_def constructor_def upt_rec)


lemma twins_eval:
  "twins = \<lparr>heap = [\<lparr>id' = 1234567891, balance = 10\<rparr>, \<lparr>id' = 1234567890, balance = 50\<rparr>,
                   \<lparr>id' = 1234567890, balance = 700\<rparr>],
           accounts = [0, 1, 2], usernames = []\<rparr>"
  by (simp add: twins_def new_Bank_def constructor_def upt_rec)

lemma refs_valid_seed: "refs_valid seed"
  by (simp add: seed_eval refs_valid_def)

lemma find_seed: "findAccountById seed 1234567890 = Some 0"
  by (simp add: findAccountById_def seed_eval)

section \<open>Looking an account up\<close>

text \<open>
  \<open>findAccountById\<close> returns the first entry of the array whose object holds the id: no
  entry holds it when the result is \<open>undefined\<close>, and no entry before the returned one does.
\<close>

lemma findAccountById_None:
  "(findAccountById b i = None) = (\<forall>r\<in>set (accounts b). id' (heap b ! r) \<noteq> i)"
  by (auto simp: findAccountById_def find_None_iff)


lemma findAccountById_first:
  assumes "accounts b = pre @ r # post"
    and "\<forall>p\<in>set pre. id' (heap b ! p) \<noteq> i"
    and "id' (heap b ! r) = i"
  shows "findAccountById b i = Some r"
proof -
  have "find (\<lambda>a. id' (heap b ! a) = i) (pre @ r # post) = Some r"
    using assms(2,3) by (induction pre) auto
  then show ?thesis by (simp add: findAccountById_def assms(1))
qed

lemma findAccountById_Some_first:
  assumes "findAccountById b i = Some r"
  shows "\<exists>pre post. accounts b = pre @ r # post \<and> (\<forall>p\<in>set pre. id' (heap b ! p) \<noteq> i)"
proof -
  from assms obtain k where k: "k < length (accounts b)" "r = accounts b ! k"
    "\<forall>j<k. id' (heap b ! (accounts b ! j)) \<noteq> i"
    by (auto simp: findAccountById_def find_Some_iff)
  have "accounts b = take k (accounts b) @ r # drop (Suc k) (accounts b)"
    using k(1,2) by (simp add: id_take_nth_drop)
  moreover have "\<forall>p\<in>set (take k (accounts b)). id' (heap b ! p) \<noteq> i"
  proof
    fix p assume "p \<in> set (take k (accounts b))"
    then obtain j where "j < k" "p = accounts b ! j"
      using k(1) by (auto simp: in_set_conv_nth)
    with k(3) show "id' (heap b ! p) \<noteq> i" by simp
  qed
  ultimately show ?thesis by blast
qed

lemma refs_valid_ref: "refs_valid b \<Longrightarrow> r \<in> set (accounts b) \<Longrightarrow> r < length (heap b)"
  by (simp add: refs_valid_def list_all_iff)

lemma update_id [simp]: "id' (h[r := (h ! r)\<lparr>balance := v\<rparr>] ! x) = id' (h ! x)"
  by (cases "r < length h"; cases "x = r") (simp_all add: list_update_beyond)

section \<open>The operations, case by case\<close>

lemma createAccount_cases:
  "createAccount b u age n =
     (if isAccountNumberInvalid n then (Inl (Error ''Invalid account number''), b)
      else if u \<notin> set (usernames b) then (Inl (Error ''User not found''), b)
      else if age < 18 then (Inl (Error ''User is under 18''), b)
      else if \<exists>r\<in>set (accounts b). id' (heap b ! r) = n
        then (Inl (Error ''Account already exists''), b)
      else (Inr (length (heap b)),
            b\<lparr>heap := heap b @ [\<lparr>id' = n, balance = 0\<rparr>],
              accounts := accounts b @ [length (heap b)]\<rparr>))"
  by (simp add: createAccount_def isUsernameExisits_def findAccountById_None Let_def)

lemma createAccount_InrD:
  assumes "createAccount b u age n = (Inr r, b')"
  shows "r = length (heap b)"
    and "b' = b\<lparr>heap := heap b @ [\<lparr>id' = n, balance = 0\<rparr>], accounts := accounts b @ [r]\<rparr>"
    and "\<not> isAccountNumberInvalid n" and "u \<in> set (usernames b)" and "18 \<le> age"
    and "\<forall>r\<in>set (accounts b). id' (heap b ! r) \<noteq> n"
  using assms by (auto simp: createAccount_cases split: if_splits)

text \<open>
  On the numbers from 0 to below \<open>10^21\<close>, the check of \<open>isAccountNumberInvalid\<close> is the
  10-digit check, and \<open>createAccount\<close> reports the first precondition that fails in the
  order 10 digits, registered user, age, duplicate.
\<close>

lemma createAccount_order_nonnegative:
  assumes "0 \<le> n" and "n < 10 ^ 21"
  shows "createAccount b u age n =
     (if \<not> ten_decimal_digits n then (Inl (Error ''Invalid account number''), b)
      else if u \<notin> set (usernames b) then (Inl (Error ''User not found''), b)
      else if age < 18 then (Inl (Error ''User is under 18''), b)
      else if \<exists>r\<in>set (accounts b). id' (heap b ! r) = n
        then (Inl (Error ''Account already exists''), b)
      else (Inr (length (heap b)),
            b\<lparr>heap := heap b @ [\<lparr>id' = n, balance = 0\<rparr>],
              accounts := accounts b @ [length (heap b)]\<rparr>))"
proof -
  have "isAccountNumberInvalid n = (\<not> ten_decimal_digits n)"
    using assms by (simp add: isAccountNumberInvalid_iff)
  then show ?thesis by (simp add: createAccount_cases)
qed

lemma createAccount_rejects:
  assumes "\<bar>n\<bar> < 10 ^ 21"
    and "\<not> ten_decimal_digits n" and "\<not> (- 999999999 \<le> n \<and> n \<le> - 100000000)"
  shows "createAccount b u age n = (Inl (Error ''Invalid account number''), b)"
  using assms by (simp add: createAccount_cases isAccountNumberInvalid_iff)



lemma deposit_seed:
  "deposit seed 1234567890 1000 =
     (Inr 0, seed\<lparr>heap := [\<lparr>id' = 1234567890, balance = 6000\<rparr>, \<lparr>id' = 1234567891, balance = 10000\<rparr>]\<rparr>)"
  by (simp add: deposit_def findAccountById_def seed_eval number_add_def number_value_small)

lemma withdraw_seed:
  "withdraw seed 1234567890 1000 =
     (Inr 0, seed\<lparr>heap := [\<lparr>id' = 1234567890, balance = 4000\<rparr>, \<lparr>id' = 1234567891, balance = 10000\<rparr>]\<rparr>)"
  by (simp add: withdraw_def findAccountById_def seed_eval number_subtract_def
      number_value_small)

section \<open>What every sequence of calls preserves\<close>

text \<open>
  Every sequence of calls keeps the references valid, the balances above or at zero, the
  ids pairwise distinct and every id accepted by \<open>isAccountNumberInvalid\<close>. It keeps every
  id a 10-digit number when every \<open>createAccount\<close> of the sequence is given a number from
  0 to below \<open>10^21\<close>.
\<close>

lemma update_balances_nonneg:
  assumes "balances_nonneg b" and "0 \<le> v"
  shows "balances_nonneg (b\<lparr>heap := (heap b)[r := (heap b ! r)\<lparr>balance := v\<rparr>]\<rparr>)"
proof -
  have "0 \<le> balance ((heap b)[r := (heap b ! r)\<lparr>balance := v\<rparr>] ! x)"
    if "0 \<le> balance (heap b ! x)" for x
    using that assms(2)
    by (cases "r < length (heap b)"; cases "x = r") (simp_all add: list_update_beyond)
  with assms(1) show ?thesis by (simp add: balances_nonneg_def list_all_iff)
qed

lemma deposit_state:
  "snd (deposit b i amt) = b \<or>
   (\<exists>r. 0 < amt \<and> snd (deposit b i amt) =
      b\<lparr>heap := (heap b)[r := (heap b ! r)\<lparr>balance := number_add (balance (heap b ! r)) amt\<rparr>]\<rparr>)"
proof (cases "findAccountById b i")
  case None
  then show ?thesis by (simp add: deposit_def)
next
  case (Some r)
  show ?thesis
  proof (cases "amt \<le> 0")
    case True
    then show ?thesis by (simp add: deposit_def Some)
  next
    case False
    then have "0 < amt \<and> snd (deposit b i amt) =
      b\<lparr>heap := (heap b)[r := (heap b ! r)\<lparr>balance := number_add (balance (heap b ! r)) amt\<rparr>]\<rparr>"
      by (simp add: deposit_def Some)
    then show ?thesis by blast
  qed
qed

lemma withdraw_state:
  "snd (withdraw b i amt) = b \<or>
   (\<exists>r. amt \<le> balance (heap b ! r) \<and> snd (withdraw b i amt) =
      b\<lparr>heap := (heap b)[r := (heap b ! r)\<lparr>balance := number_subtract (balance (heap b ! r)) amt\<rparr>]\<rparr>)"
proof (cases "findAccountById b i")
  case None
  then show ?thesis by (simp add: withdraw_def)
next
  case (Some r)
  show ?thesis
  proof (cases "amt \<le> 0 \<or> balance (heap b ! r) < amt")
    case True
    then show ?thesis by (auto simp: withdraw_def Some)
  next
    case False
    then have "amt \<le> balance (heap b ! r) \<and> snd (withdraw b i amt) =
      b\<lparr>heap := (heap b)[r := (heap b ! r)\<lparr>balance := number_subtract (balance (heap b ! r)) amt\<rparr>]\<rparr>"
      by (simp add: withdraw_def Some)
    then show ?thesis by blast
  qed
qed

lemma getBalance_state: "snd (getBalance b i) = b"
  by (simp add: getBalance_def split: option.split)

lemma createAccount_state:
  "snd (createAccount b u age n) = b \<or>
   (\<not> isAccountNumberInvalid n \<and> (\<forall>r\<in>set (accounts b). id' (heap b ! r) \<noteq> n)
    \<and> snd (createAccount b u age n) =
        b\<lparr>heap := heap b @ [\<lparr>id' = n, balance = 0\<rparr>],
          accounts := accounts b @ [length (heap b)]\<rparr>)"
  by (simp add: createAccount_cases)

lemma push_preserves:
  assumes "refs_valid b"
  shows "refs_valid (b\<lparr>heap := heap b @ [a], accounts := accounts b @ [length (heap b)]\<rparr>)"
    and "balances_nonneg b \<Longrightarrow> 0 \<le> balance a \<Longrightarrow>
         balances_nonneg (b\<lparr>heap := heap b @ [a], accounts := accounts b @ [length (heap b)]\<rparr>)"
    and "ids_distinct b \<Longrightarrow> \<forall>r\<in>set (accounts b). id' (heap b ! r) \<noteq> id' a \<Longrightarrow>
         ids_distinct (b\<lparr>heap := heap b @ [a], accounts := accounts b @ [length (heap b)]\<rparr>)"
    and "ids_accepted b \<Longrightarrow> \<not> isAccountNumberInvalid (id' a) \<Longrightarrow>
         ids_accepted (b\<lparr>heap := heap b @ [a], accounts := accounts b @ [length (heap b)]\<rparr>)"
    and "ids_ten_digits b \<Longrightarrow> ten_decimal_digits (id' a) \<Longrightarrow>
         ids_ten_digits (b\<lparr>heap := heap b @ [a], accounts := accounts b @ [length (heap b)]\<rparr>)"
proof -
  have old: "(heap b @ [a]) ! r = heap b ! r" if "r \<in> set (accounts b)" for r
    using that assms by (simp add: refs_valid_ref nth_append)
  show "refs_valid (b\<lparr>heap := heap b @ [a], accounts := accounts b @ [length (heap b)]\<rparr>)"
    using assms by (auto simp: refs_valid_def list_all_iff)
  show "balances_nonneg b \<Longrightarrow> 0 \<le> balance a \<Longrightarrow>
         balances_nonneg (b\<lparr>heap := heap b @ [a], accounts := accounts b @ [length (heap b)]\<rparr>)"
    using old by (simp add: balances_nonneg_def list_all_iff)
  show "ids_accepted b \<Longrightarrow> \<not> isAccountNumberInvalid (id' a) \<Longrightarrow>
         ids_accepted (b\<lparr>heap := heap b @ [a], accounts := accounts b @ [length (heap b)]\<rparr>)"
    using old by (simp add: ids_accepted_def list_all_iff)
  show "ids_ten_digits b \<Longrightarrow> ten_decimal_digits (id' a) \<Longrightarrow>
         ids_ten_digits (b\<lparr>heap := heap b @ [a], accounts := accounts b @ [length (heap b)]\<rparr>)"
    using old by (simp add: ids_ten_digits_def list_all_iff)
  have eq: "map (\<lambda>r. id' ((heap b @ [a]) ! r)) (accounts b)
      = map (\<lambda>r. id' (heap b ! r)) (accounts b)"
    using old by simp
  show "ids_distinct b \<Longrightarrow> \<forall>r\<in>set (accounts b). id' (heap b ! r) \<noteq> id' a \<Longrightarrow>
         ids_distinct (b\<lparr>heap := heap b @ [a], accounts := accounts b @ [length (heap b)]\<rparr>)"
    unfolding ids_distinct_def by (simp add: eq) auto
qed

lemma call_preserves:
  assumes "refs_valid b"
  shows "refs_valid (call b x) \<and> (balances_nonneg b \<longrightarrow> balances_nonneg (call b x))
      \<and> (ids_distinct b \<longrightarrow> ids_distinct (call b x))
      \<and> (ids_accepted b \<longrightarrow> ids_accepted (call b x))
      \<and> (ids_ten_digits b \<and> plain_number x \<longrightarrow> ids_ten_digits (call b x))"
proof (cases x)
  case (CreateAccount u age n)
  have "ten_decimal_digits n" if "\<not> isAccountNumberInvalid n" "0 \<le> n" "n < 10 ^ 21"
    using that by (simp add: isAccountNumberInvalid_iff)
  then show ?thesis
    using createAccount_state[of b u age n] push_preserves[OF assms, of "\<lparr>id' = n, balance = 0\<rparr>"]
      assms CreateAccount
    by auto
next
  case (Deposit i amt)
  show ?thesis
  proof (rule disjE[OF deposit_state[of b i amt]])
    assume "snd (deposit b i amt) = b"
    then show ?thesis using assms Deposit by simp
  next
    assume "\<exists>r. 0 < amt \<and> snd (deposit b i amt) =
      b\<lparr>heap := (heap b)[r := (heap b ! r)\<lparr>balance := number_add (balance (heap b ! r)) amt\<rparr>]\<rparr>"
    then obtain r where r: "0 < amt" "call b x =
      b\<lparr>heap := (heap b)[r := (heap b ! r)\<lparr>balance := number_add (balance (heap b ! r)) amt\<rparr>]\<rparr>"
      using Deposit by auto
    have "balances_nonneg (call b x)" if n: "balances_nonneg b"
    proof (cases "r \<in> set (accounts b)")
      case True
      then have "0 \<le> balance (heap b ! r)" using n by (simp add: balances_nonneg_def list_all_iff)
      then have "0 \<le> number_add (balance (heap b ! r)) amt"
        using r(1) by (simp add: number_add_def number_value_nonneg)
      then show ?thesis unfolding r(2) using n by (intro update_balances_nonneg)
    next
      case False
      then have "(heap b)[r := v] ! a = heap b ! a" if "a \<in> set (accounts b)" for a v
        using that by (metis nth_list_update_neq)
      then show ?thesis unfolding r(2) using n by (simp add: balances_nonneg_def list_all_iff)
    qed
    then show ?thesis using assms
      by (simp add: r(2) refs_valid_def ids_distinct_def ids_accepted_def ids_ten_digits_def)
  qed
next
  case (Withdraw i amt)
  show ?thesis
  proof (rule disjE[OF withdraw_state[of b i amt]])
    assume "snd (withdraw b i amt) = b"
    then show ?thesis using assms Withdraw by simp
  next
    assume "\<exists>r. amt \<le> balance (heap b ! r) \<and> snd (withdraw b i amt) =
      b\<lparr>heap := (heap b)[r := (heap b ! r)\<lparr>balance := number_subtract (balance (heap b ! r)) amt\<rparr>]\<rparr>"
    then obtain r where r: "amt \<le> balance (heap b ! r)" "call b x =
      b\<lparr>heap := (heap b)[r := (heap b ! r)\<lparr>balance := number_subtract (balance (heap b ! r)) amt\<rparr>]\<rparr>"
      using Withdraw by auto
    have "0 \<le> number_subtract (balance (heap b ! r)) amt"
      using r(1) by (simp add: number_subtract_def number_value_nonneg)
    then have "balances_nonneg (call b x)" if n: "balances_nonneg b"
      unfolding r(2) using n by (intro update_balances_nonneg)
    then show ?thesis using assms
      by (simp add: r(2) refs_valid_def ids_distinct_def ids_accepted_def ids_ten_digits_def)
  qed
next
  case (GetBalance i)
  then show ?thesis using assms by (simp add: getBalance_state)
qed

lemma run_preserves:
  assumes "refs_valid b"
  shows "refs_valid (run b ops) \<and> (balances_nonneg b \<longrightarrow> balances_nonneg (run b ops))
      \<and> (ids_distinct b \<longrightarrow> ids_distinct (run b ops))
      \<and> (ids_accepted b \<longrightarrow> ids_accepted (run b ops))
      \<and> (ids_ten_digits b \<and> list_all plain_number ops \<longrightarrow> ids_ten_digits (run b ops))"
  using assms unfolding run_def
proof (induction ops arbitrary: b)
  case Nil
  then show ?case by simp
next
  case (Cons x xs)
  note c = call_preserves[OF Cons.prems, of x]
  from c have "refs_valid (call b x)" by simp
  from Cons.IH[OF this] c show ?case by simp
qed

section \<open>The invariants of the data model\<close>

text \<open>
  Claim C1 (from a bank whose snapshot satisfies the data model's invariants, every
  operation preserves them: after any sequence of operations every balance is at least
  0, every id has exactly 10 decimal digits, and the ids are pairwise distinct): the
  test script's bank satisfies the three invariants, and after
  \<open>createAccount("user1", 20, -123456789)\<close> it holds an account whose id is not a 10-digit
  number. The balances and the distinctness of the ids are preserved by every sequence
  of calls (\<open>run_preserves\<close>).
\<close>

theorem negative_id_breaks_ten_digit_invariant:
  "refs_valid seed \<and> balances_nonneg seed \<and> ids_ten_digits seed \<and> ids_distinct seed
   \<and> \<not> ids_ten_digits (snd (createAccount seed ''user1'' 20 (- 123456789)))
   \<and> \<not> ids_ten_digits (run seed [CreateAccount ''user1'' 20 (- 123456789)])"
  by (simp add: createAccount_def isAccountNumberInvalid_iff ten_decimal_digits_def
      isUsernameExisits_def findAccountById_def seed_eval refs_valid_def balances_nonneg_def
      ids_ten_digits_def ids_distinct_def run_def)

section \<open>Creating an account\<close>

text \<open>
  Claim C2 (the preconditions of \<open>createAccount\<close> are checked in the order: exactly 10
  digits, else InvalidAccountNumber; registered user, else UnknownUser; age at least 18,
  else UnderageUser; no account with the id, else DuplicateAccount; and the first one
  that fails determines the error): for the account number \<open>-123456789\<close>, the unregistered
  user \<open>"user3"\<close> and the age 17, the first three preconditions fail together, and the
  error is "User not found", the second precondition's, not "Invalid account number".
  On the numbers from 0 to below \<open>10^21\<close> the order is the claim's
  (\<open>createAccount_order_nonnegative\<close>).
\<close>

theorem negative_number_unknown_user_reported:
  "createAccount seed ''user3'' 17 (- 123456789) = (Inl (Error ''User not found''), seed)
   \<and> \<not> ten_decimal_digits (- 123456789) \<and> \<not> ten_decimal_digits \<bar>- 123456789\<bar>
   \<and> ''user3'' \<notin> set (usernames seed) \<and> (17::int) < 18"
  by (simp add: createAccount_def isAccountNumberInvalid_iff ten_decimal_digits_def
      isUsernameExisits_def findAccountById_def seed_eval)

text \<open>
  Claim C3 (every account number that does not consist of exactly 10 decimal digits,
  for example a negative number with 9 digits, makes \<open>createAccount\<close> fail with
  InvalidAccountNumber, whatever the other parameters): on the test script's bank,
  \<open>createAccount("user1", 20, -123456789)\<close> throws nothing. It returns a new account with
  the id \<open>-123456789\<close> and appends it to the array, although neither this number nor
  its absolute value is a 10-digit number: its string \<open>"-123456789"\<close> is ten characters
  long. Every other number of a magnitude below \<open>10^21\<close> that is not a 10-digit
  number is refused (\<open>createAccount_rejects\<close>); from \<open>10^21\<close> on, the numbers whose
  exponent notation is ten characters long are accepted as well
  (\<open>exponent_notation_accepted\<close>).
\<close>

theorem negative_nine_digit_number_accepted:
  "createAccount seed ''user1'' 20 (- 123456789) =
     (Inr 2,
      seed\<lparr>heap := heap seed @ [\<lparr>id' = - 123456789, balance = 0\<rparr>],
           accounts := accounts seed @ [2]\<rparr>)
   \<and> toString (- 123456789) = ''-123456789''
   \<and> \<not> ten_decimal_digits (- 123456789) \<and> \<not> ten_decimal_digits \<bar>- 123456789\<bar>"
  by (simp add: createAccount_def isAccountNumberInvalid_def toString_examples
      ten_decimal_digits_def isUsernameExisits_def findAccountById_def seed_eval)

text \<open>
  Claim C4 (a successful \<open>createAccount(username, age, accountNumber)\<close>, one whose four
  preconditions hold, returns an account with the given id and the balance 0, appends
  it at the end of the collection, which gains exactly this entry, and changes nothing
  else: the accounts that existed and the registered user names are as before): when
  the four preconditions hold the call returns an account; and whenever the call
  returns an account \<open>r\<close>, the object of \<open>r\<close> holds the id and the balance 0, \<open>r\<close> is a
  new object appended at the end of the array, the store is the old store with this
  object added, so that every earlier object is as it was, and the user names are the
  same.
\<close>

theorem createAccount_success:
  assumes "refs_valid b"
  shows "(ten_decimal_digits n \<and> u \<in> set (usernames b) \<and> 18 \<le> age
          \<and> (\<forall>a\<in>set (accounts b). id' (heap b ! a) \<noteq> n)
          \<longrightarrow> (\<exists>r b'. createAccount b u age n = (Inr r, b')))
    \<and> (\<forall>r b'. createAccount b u age n = (Inr r, b') \<longrightarrow>
          heap b' ! r = \<lparr>id' = n, balance = 0\<rparr>
        \<and> accounts b' = accounts b @ [r]
        \<and> r \<notin> set (accounts b)
        \<and> heap b' = heap b @ [\<lparr>id' = n, balance = 0\<rparr>]
        \<and> (\<forall>a\<in>set (accounts b). heap b' ! a = heap b ! a)
        \<and> usernames b' = usernames b
        \<and> b' = b\<lparr>heap := heap b @ [\<lparr>id' = n, balance = 0\<rparr>],
                  accounts := accounts b @ [r]\<rparr>)"
proof (intro conjI impI allI)
  assume h: "ten_decimal_digits n \<and> u \<in> set (usernames b) \<and> 18 \<le> age
          \<and> (\<forall>a\<in>set (accounts b). id' (heap b ! a) \<noteq> n)"
  then have "\<bar>n\<bar> < 10 ^ 21" by (simp add: ten_decimal_digits_def)
  then have "\<not> isAccountNumberInvalid n" using h by (simp add: isAccountNumberInvalid_iff)
  with h show "\<exists>r b'. createAccount b u age n = (Inr r, b')"
    by (simp add: createAccount_cases)
next
  fix r b' assume c: "createAccount b u age n = (Inr r, b')"
  note d = createAccount_InrD[OF c]
  have fresh: "\<forall>a\<in>set (accounts b). a < r"
    using assms d(1) by (simp add: refs_valid_def list_all_iff)
  show "heap b' ! r = \<lparr>id' = n, balance = 0\<rparr>" using d(1,2) by simp
  show "accounts b' = accounts b @ [r]" using d(2) by simp
  show "r \<notin> set (accounts b)" using fresh by auto
  show "heap b' = heap b @ [\<lparr>id' = n, balance = 0\<rparr>]" using d(2) by simp
  show "\<forall>a\<in>set (accounts b). heap b' ! a = heap b ! a"
    using fresh d(1,2) by (simp add: nth_append)
  show "usernames b' = usernames b" using d(2) by simp
  show "b' = b\<lparr>heap := heap b @ [\<lparr>id' = n, balance = 0\<rparr>],
                  accounts := accounts b @ [r]\<rparr>" by (rule d(2))
qed

theorem createAccount_success_witness:
  "refs_valid seed \<and> ten_decimal_digits 1234567892 \<and>
   (\<exists>r b'. createAccount seed ''user1'' 20 1234567892 = (Inr r, b')
      \<and> heap b' ! r = \<lparr>id' = 1234567892, balance = 0\<rparr>
      \<and> accounts b' = accounts seed @ [r] \<and> r \<notin> set (accounts seed)
      \<and> heap b' = heap seed @ [\<lparr>id' = 1234567892, balance = 0\<rparr>]
      \<and> usernames b' = usernames seed)"
proof -
  have p: "ten_decimal_digits 1234567892 \<and> ''user1'' \<in> set (usernames seed) \<and> (18::int) \<le> 20
      \<and> (\<forall>a\<in>set (accounts seed). id' (heap seed ! a) \<noteq> 1234567892)"
    by (simp add: seed_eval ten_decimal_digits_def)
  note t = createAccount_success[OF refs_valid_seed, of 1234567892 "''user1''" 20]
  from t p obtain r b' where c: "createAccount seed ''user1'' 20 1234567892 = (Inr r, b')"
    by blast
  with t have "heap b' ! r = \<lparr>id' = 1234567892, balance = 0\<rparr>
      \<and> accounts b' = accounts seed @ [r] \<and> r \<notin> set (accounts seed)
      \<and> heap b' = heap seed @ [\<lparr>id' = 1234567892, balance = 0\<rparr>]
      \<and> usernames b' = usernames seed"
    by blast
  with c p refs_valid_seed show ?thesis by blast
qed

section \<open>Deposits and withdrawals\<close>




text \<open>
  Claim C6 (\<open>deposit\<close> and \<open>withdraw\<close> check that the account exists before they check
  the amount: with no account under the id both fail with AccountNotFound for every
  amount, also one that is not positive; with an account under the id and an amount
  that is not positive both fail with InvalidAmount): the errors are "Account not
  found" in the first case and, in the second, "Invalid deposit amount" and "Invalid
  withdrawal amount", the two messages of the InvalidAmount failure. The bank is
  unchanged in each case.
\<close>

theorem existence_checked_before_amount:
  "((\<forall>a\<in>set (accounts b). id' (heap b ! a) \<noteq> i) \<longrightarrow>
       deposit b i amt = (Inl (Error ''Account not found''), b)
     \<and> withdraw b i amt = (Inl (Error ''Account not found''), b))
   \<and> ((\<exists>a\<in>set (accounts b). id' (heap b ! a) = i) \<and> amt \<le> 0 \<longrightarrow>
       deposit b i amt = (Inl (Error ''Invalid deposit amount''), b)
     \<and> withdraw b i amt = (Inl (Error ''Invalid withdrawal amount''), b))"
proof (intro conjI impI)
  assume "\<forall>a\<in>set (accounts b). id' (heap b ! a) \<noteq> i"
  then have n: "findAccountById b i = None" by (simp add: findAccountById_None)
  show "deposit b i amt = (Inl (Error ''Account not found''), b)"
    by (simp add: deposit_def n)
  show "withdraw b i amt = (Inl (Error ''Account not found''), b)"
    by (simp add: withdraw_def n)
next
  assume a: "(\<exists>a\<in>set (accounts b). id' (heap b ! a) = i) \<and> amt \<le> 0"
  then have "findAccountById b i \<noteq> None" by (simp add: findAccountById_None)
  then obtain r where s: "findAccountById b i = Some r" by blast
  show "deposit b i amt = (Inl (Error ''Invalid deposit amount''), b)"
    using a by (simp add: deposit_def s)
  show "withdraw b i amt = (Inl (Error ''Invalid withdrawal amount''), b)"
    using a by (simp add: withdraw_def s)
qed

theorem existence_checked_before_amount_witness:
  "deposit seed 9999999999 (- 100) = (Inl (Error ''Account not found''), seed)
   \<and> withdraw seed 9999999999 0 = (Inl (Error ''Account not found''), seed)
   \<and> deposit seed 1234567890 (- 100) = (Inl (Error ''Invalid deposit amount''), seed)
   \<and> withdraw seed 1234567890 (- 100) = (Inl (Error ''Invalid withdrawal amount''), seed)"
proof -
  have n: "\<forall>a\<in>set (accounts seed). id' (heap seed ! a) \<noteq> 9999999999"
    by (simp add: seed_eval)
  have e: "(\<exists>a\<in>set (accounts seed). id' (heap seed ! a) = 1234567890) \<and> (- 100::int) \<le> 0"
    by (simp add: seed_eval)
  show ?thesis
    using existence_checked_before_amount[of seed 9999999999 "- 100"]
      existence_checked_before_amount[of seed 9999999999 0]
      existence_checked_before_amount[of seed 1234567890 "- 100"] n e
    by blast
qed

text \<open>
  Claim C7 (\<open>withdraw\<close> applies its checks in the order existence, amount above 0,
  amount at most the balance: with an account under the id and an amount above 0 and
  above the account's balance it fails with InsufficientFunds and leaves the balance
  unchanged; with an amount above 0 and at most the balance it does not fail with
  InsufficientFunds): \<open>r\<close> is the account that \<open>findAccountById\<close> returns for the id.
  Without an account the error is "Account not found" for every amount; with one, an
  amount that is not positive gives "Invalid withdrawal amount" whatever the balance;
  a positive amount above the balance gives "Insufficient funds" and the same state;
  a positive amount within the balance returns the account.
\<close>

theorem withdraw_insufficient_funds:
  "((\<forall>a\<in>set (accounts b). id' (heap b ! a) \<noteq> i) \<longrightarrow>
       withdraw b i amt = (Inl (Error ''Account not found''), b))
   \<and> (findAccountById b i = Some r \<and> amt \<le> 0 \<longrightarrow>
       withdraw b i amt = (Inl (Error ''Invalid withdrawal amount''), b))
   \<and> (findAccountById b i = Some r \<and> 0 < amt \<and> balance (heap b ! r) < amt \<longrightarrow>
       withdraw b i amt = (Inl (Error ''Insufficient funds''), b)
     \<and> balance (heap (snd (withdraw b i amt)) ! r) = balance (heap b ! r))
   \<and> (findAccountById b i = Some r \<and> 0 < amt \<and> amt \<le> balance (heap b ! r) \<longrightarrow>
       fst (withdraw b i amt) = Inr r)"
  by (simp add: withdraw_def findAccountById_None [symmetric])

theorem withdraw_insufficient_funds_witness:
  "withdraw seed 9999999999 10000 = (Inl (Error ''Account not found''), seed)
   \<and> withdraw seed 1234567890 (- 100) = (Inl (Error ''Invalid withdrawal amount''), seed)
   \<and> withdraw invalid_snapshot 42 (- 50) =
       (Inl (Error ''Invalid withdrawal amount''), invalid_snapshot)
   \<and> withdraw seed 1234567890 10000 = (Inl (Error ''Insufficient funds''), seed)
   \<and> balance (heap (snd (withdraw seed 1234567890 10000)) ! 0) = 5000
   \<and> fst (withdraw seed 1234567890 5000) = Inr 0"
proof -
  have n: "\<forall>a\<in>set (accounts seed). id' (heap seed ! a) \<noteq> 9999999999"
    by (simp add: seed_eval)
  have b: "balance (heap seed ! 0) = 5000" by (simp add: seed_eval)
  have f: "findAccountById invalid_snapshot 42 = Some 0"
    by (simp add: findAccountById_def invalid_snapshot_eval)
  show ?thesis
    using withdraw_insufficient_funds[of seed 9999999999 10000 0]
      withdraw_insufficient_funds[of seed 1234567890 "- 100" 0]
      withdraw_insufficient_funds[of invalid_snapshot 42 "- 50" 0]
      withdraw_insufficient_funds[of seed 1234567890 10000 0]
      withdraw_insufficient_funds[of seed 1234567890 5000 0] n b f find_seed
    by simp
qed

section \<open>Atomicity\<close>




section \<open>Snapshots that violate the data model\<close>

text \<open>
  Claim C9 (the constructor validates nothing: for some initial list of accounts that
  violates the invariants of the data model, construction succeeds and the operations
  work on that state without an error, for example \<open>getBalance\<close> returns the negative
  balance of such an account): the bank constructed from two accounts with the id 42
  and the balances -100 and 7 violates each of the three invariants; \<open>getBalance(42)\<close>
  returns -100, \<open>deposit(42, 30)\<close> returns the account with the balance -70, and
  \<open>getBalance(42)\<close> then returns -70.
\<close>

theorem constructor_accepts_invalid_snapshot:
  "\<not> balances_nonneg invalid_snapshot \<and> \<not> ids_ten_digits invalid_snapshot
   \<and> \<not> ids_distinct invalid_snapshot
   \<and> getBalance invalid_snapshot 42 = (Inr (- 100), invalid_snapshot)
   \<and> deposit invalid_snapshot 42 30 =
       (Inr 0, invalid_snapshot\<lparr>heap := [\<lparr>id' = 42, balance = - 70\<rparr>, \<lparr>id' = 42, balance = 7\<rparr>]\<rparr>)
   \<and> getBalance (snd (deposit invalid_snapshot 42 30)) 42 =
       (Inr (- 70), snd (deposit invalid_snapshot 42 30))"
  by (simp add: invalid_snapshot_eval balances_nonneg_def ids_ten_digits_def ids_distinct_def
      ten_decimal_digits_def getBalance_def deposit_def findAccountById_def number_add_def
      number_value_small)

text \<open>
  Claim C10 (when two or more accounts of the collection share an id, every
  \<open>deposit\<close>, \<open>withdraw\<close> and \<open>getBalance\<close> with that id reads and changes only the first
  matching account in the order of the collection; the later duplicates are never read
  or changed): let \<open>r\<close> be the first entry of the array whose object holds the id \<open>i\<close>.
  Then \<open>getBalance\<close> returns the balance of \<open>r\<close>; \<open>deposit\<close> and \<open>withdraw\<close> decide on
  the balance of \<open>r\<close>, return \<open>r\<close> and assign the rounded sum, respectively difference,
  to the balance of \<open>r\<close>; every object other
  than \<open>r\<close> is unchanged by the three operations; and what the operations return and
  what they store in \<open>r\<close> is the same in every store that agrees with this one on
  \<open>r\<close> and on the entries before it, whatever the later entries hold. (An entry that
  references the object of \<open>r\<close> itself is the same account, not a duplicate of it:
  \<open>aliased_entries\<close>.)
\<close>

theorem first_match_only:
  assumes "refs_valid b" and "accounts b = pre @ r # post"
    and "\<forall>p\<in>set pre. id' (heap b ! p) \<noteq> i" and "id' (heap b ! r) = i"
  shows "getBalance b i = (Inr (balance (heap b ! r)), b)
    \<and> deposit b i amt =
        (if amt \<le> 0 then (Inl (Error ''Invalid deposit amount''), b)
         else (Inr r, b\<lparr>heap := (heap b)[r :=
                 (heap b ! r)\<lparr>balance := number_add (balance (heap b ! r)) amt\<rparr>]\<rparr>))
    \<and> withdraw b i amt =
        (if amt \<le> 0 then (Inl (Error ''Invalid withdrawal amount''), b)
         else if balance (heap b ! r) < amt then (Inl (Error ''Insufficient funds''), b)
         else (Inr r, b\<lparr>heap := (heap b)[r :=
                 (heap b ! r)\<lparr>balance := number_subtract (balance (heap b ! r)) amt\<rparr>]\<rparr>))
    \<and> (\<forall>x. x \<noteq> r \<longrightarrow>
          heap (snd (getBalance b i)) ! x = heap b ! x
        \<and> heap (snd (deposit b i amt)) ! x = heap b ! x
        \<and> heap (snd (withdraw b i amt)) ! x = heap b ! x)
    \<and> (\<forall>h. length h = length (heap b) \<and> (\<forall>x\<in>set pre \<union> {r}. h ! x = heap b ! x) \<longrightarrow>
          fst (getBalance (b\<lparr>heap := h\<rparr>) i) = fst (getBalance b i)
        \<and> fst (deposit (b\<lparr>heap := h\<rparr>) i amt) = fst (deposit b i amt)
        \<and> fst (withdraw (b\<lparr>heap := h\<rparr>) i amt) = fst (withdraw b i amt)
        \<and> heap (snd (deposit (b\<lparr>heap := h\<rparr>) i amt)) ! r = heap (snd (deposit b i amt)) ! r
        \<and> heap (snd (withdraw (b\<lparr>heap := h\<rparr>) i amt)) ! r = heap (snd (withdraw b i amt)) ! r)"
proof -
  have f: "findAccountById b i = Some r"
    using assms(2,3,4) by (rule findAccountById_first)
  have lt: "r < length (heap b)"
    using assms(1,2) by (simp add: refs_valid_ref)
  have g: "getBalance b i = (Inr (balance (heap b ! r)), b)"
    by (simp add: getBalance_def f)
  have d: "deposit b i amt =
        (if amt \<le> 0 then (Inl (Error ''Invalid deposit amount''), b)
         else (Inr r, b\<lparr>heap := (heap b)[r :=
                 (heap b ! r)\<lparr>balance := number_add (balance (heap b ! r)) amt\<rparr>]\<rparr>))"
    by (simp add: deposit_def f)
  have w: "withdraw b i amt =
        (if amt \<le> 0 then (Inl (Error ''Invalid withdrawal amount''), b)
         else if balance (heap b ! r) < amt then (Inl (Error ''Insufficient funds''), b)
         else (Inr r, b\<lparr>heap := (heap b)[r :=
                 (heap b ! r)\<lparr>balance := number_subtract (balance (heap b ! r)) amt\<rparr>]\<rparr>))"
    by (simp add: withdraw_def f)
  have frame: "\<forall>x. x \<noteq> r \<longrightarrow>
          heap (snd (getBalance b i)) ! x = heap b ! x
        \<and> heap (snd (deposit b i amt)) ! x = heap b ! x
        \<and> heap (snd (withdraw b i amt)) ! x = heap b ! x"
    by (simp add: g d w)
  have indep: "\<forall>h. length h = length (heap b) \<and> (\<forall>x\<in>set pre \<union> {r}. h ! x = heap b ! x) \<longrightarrow>
          fst (getBalance (b\<lparr>heap := h\<rparr>) i) = fst (getBalance b i)
        \<and> fst (deposit (b\<lparr>heap := h\<rparr>) i amt) = fst (deposit b i amt)
        \<and> fst (withdraw (b\<lparr>heap := h\<rparr>) i amt) = fst (withdraw b i amt)
        \<and> heap (snd (deposit (b\<lparr>heap := h\<rparr>) i amt)) ! r = heap (snd (deposit b i amt)) ! r
        \<and> heap (snd (withdraw (b\<lparr>heap := h\<rparr>) i amt)) ! r = heap (snd (withdraw b i amt)) ! r"
  proof (intro allI impI)
    fix h assume h: "length h = length (heap b) \<and> (\<forall>x\<in>set pre \<union> {r}. h ! x = heap b ! x)"
    let ?b = "b\<lparr>heap := h\<rparr>"
    have hr: "h ! r = heap b ! r" using h by simp
    have "findAccountById ?b i = Some r"
    proof (rule findAccountById_first)
      show "accounts ?b = pre @ r # post" using assms(2) by simp
      show "\<forall>p\<in>set pre. id' (heap ?b ! p) \<noteq> i" using h assms(3) by simp
      show "id' (heap ?b ! r) = i" using hr assms(4) by simp
    qed
    then have f': "findAccountById b i = findAccountById ?b i" by (simp add: f)
    have lt': "r < length h" using h lt by simp
    show "fst (getBalance ?b i) = fst (getBalance b i)
        \<and> fst (deposit ?b i amt) = fst (deposit b i amt)
        \<and> fst (withdraw ?b i amt) = fst (withdraw b i amt)
        \<and> heap (snd (deposit ?b i amt)) ! r = heap (snd (deposit b i amt)) ! r
        \<and> heap (snd (withdraw ?b i amt)) ! r = heap (snd (withdraw b i amt)) ! r"
      unfolding getBalance_def deposit_def withdraw_def f' [symmetric] f
      using hr lt lt' by simp
  qed
  from g d w frame indep show ?thesis by blast
qed

theorem first_match_only_witness:
  "refs_valid twins \<and> accounts twins = [0] @ 1 # [2]
   \<and> id' (heap twins ! 0) \<noteq> 1234567890
   \<and> id' (heap twins ! 1) = 1234567890 \<and> id' (heap twins ! 2) = 1234567890
   \<and> getBalance twins 1234567890 = (Inr 50, twins)
   \<and> fst (deposit twins 1234567890 10) = Inr 1
   \<and> heap (snd (deposit twins 1234567890 10)) ! 1 = \<lparr>id' = 1234567890, balance = 60\<rparr>
   \<and> heap (snd (deposit twins 1234567890 10)) ! 2 = \<lparr>id' = 1234567890, balance = 700\<rparr>
   \<and> fst (withdraw twins 1234567890 100) = Inl (Error ''Insufficient funds'')
   \<and> fst (withdraw twins 1234567890 20) = Inr 1
   \<and> heap (snd (withdraw twins 1234567890 20)) ! 1 = \<lparr>id' = 1234567890, balance = 30\<rparr>
   \<and> heap (snd (withdraw twins 1234567890 20)) ! 2 = \<lparr>id' = 1234567890, balance = 700\<rparr>"
proof -
  have w: "refs_valid twins" by (simp add: twins_eval refs_valid_def)
  have a: "accounts twins = [0] @ 1 # [2]" by (simp add: twins_eval)
  have h: "heap twins ! 0 = \<lparr>id' = 1234567891, balance = 10\<rparr>"
    "heap twins ! 1 = \<lparr>id' = 1234567890, balance = 50\<rparr>"
    "heap twins ! 2 = \<lparr>id' = 1234567890, balance = 700\<rparr>"
    "length (heap twins) = 3"
    by (simp_all add: twins_eval)
  have p: "\<forall>p\<in>set [0]. id' (heap twins ! p) \<noteq> 1234567890" using h(1) by simp
  have i: "id' (heap twins ! 1) = 1234567890" using h(2) by simp
  note t = first_match_only[OF w a p i]
  have v: "number_add 50 10 = 60" "number_subtract 50 20 = 30"
    by (simp_all add: number_add_def number_subtract_def number_value_small)
  show ?thesis
    using t[of 10] t[of 100] t[of 20] w a h v
    by simp
qed

text \<open>
  An array that lists one object twice: both entries show the deposit, since they are
  the same account.
\<close>

lemma aliased_entries:
  "map (\<lambda>r. balance (heap (snd (deposit (constructor [\<lparr>id' = 1234567890, balance = 50\<rparr>] [0, 0] [])
          1234567890 10)) ! r)) [0, 0] = [60, 60]"
  by (simp add: deposit_def findAccountById_def constructor_def number_add_def
      number_value_small)

end
